theory Spec2Isabelle
  imports Main
begin

section \<open>The co-author input of \<open>app/src/ui/lib/author-input.tsx\<close>\<close>

text \<open>
  The component \<open>AuthorInput\<close> keeps an ordered list of author tokens (owned by its
  parent and handed in as the prop \<open>authors\<close>), the index of the token that holds the
  keyboard focus, and a free-text field. Every list change is reported to the parent
  through the prop \<open>onAuthorsUpdated\<close>, which receives the whole new list.

  The embedding below follows the methods of the class one by one. Rendering, DOM focus
  calls (\<open>handle?.focus()\<close>, \<open>inputRef?.focus()\<close>), \<open>event.preventDefault()\<close> and the
  width measurement of \<open>onCoAuthorsValueChanged\<close> are layout effects with no influence on
  the list, the focus index or the text of the field, and are left out.
\<close>

subsection \<open>JavaScript string helpers\<close>

text \<open>
  A JavaScript string is a sequence of UTF-16 code units. A \<open>char\<close> is one code unit
  below 256 here (the Latin-1 range, which holds every login), so \<open>length\<close> counts code
  units as \<open>.length\<close> does. On that range \<open>toLowerCase\<close> moves \<open>A\<close>-\<open>Z\<close> (65-90) and the
  accented capitals 192-222 other than the multiplication sign 215 up by 32 and leaves
  every other unit alone, and the white space and line terminators that \<open>trim\<close> strips
  are 9-13, 32 and the no-break space 160. Code units from 256 on are not represented.
  Apart from the concrete examples, no statement below depends on which functions
  \<open>toLowerCase\<close> and \<open>trim\<close> are.
\<close>

definition toLowerCaseChar :: "char \<Rightarrow> char" where
  "toLowerCaseChar c =
     (if (65 \<le> (of_char c :: nat) \<and> (of_char c :: nat) \<le> 90) \<or>
         (192 \<le> (of_char c :: nat) \<and> (of_char c :: nat) \<le> 222 \<and> (of_char c :: nat) \<noteq> 215)
      then char_of ((of_char c :: nat) + 32) else c)"

definition toLowerCase :: "string \<Rightarrow> string" where
  "toLowerCase s = map toLowerCaseChar s"

definition isWhiteSpace :: "char \<Rightarrow> bool" where
  "isWhiteSpace c = ((of_char c :: nat) \<in> set [9, 10, 11, 12, 13, 32, 160])"

definition trim :: "string \<Rightarrow> string" where
  "trim s = rev (dropWhile isWhiteSpace (rev (dropWhile isWhiteSpace s)))"

text \<open>
  \<open>Array.prototype.slice(start, end)\<close>: a negative bound counts from the end, both bounds
  are clamped to the array, and a missing \<open>end\<close> (\<open>None\<close>) is the length.
\<close>

definition slice :: "'a list \<Rightarrow> int \<Rightarrow> int option \<Rightarrow> 'a list" where
  "slice xs start end' =
     (let len = int (length xs);
          k = (if start < 0 then max (len + start) 0 else min start len);
          e = (case end' of None \<Rightarrow> len | Some e' \<Rightarrow> e');
          final = (if e < 0 then max (len + e) 0 else min e len)
      in take (nat (final - k)) (drop (nat k) xs))"

subsection \<open>Data model\<close>

text \<open>
  Modelled from the spec: the type declarations of \<open>models/author\<close> and of the
  autocompletion module are not among the sources. The spec gives
  \<open>KnownAuthor {name, email, username}\<close> and \<open>UnknownAuthor {username, state}\<close> with the
  states \<open>searching\<close> and \<open>error\<close>, and candidates tagged as a known identity (display
  name, optional public email, username, endpoint) or a free-text echo. The use in
  \<open>author-input.tsx\<close> adds that the username of a known author may be absent (it is read
  with \<open>?.\<close>) and that the name of a hit may be absent or empty (\<open>user.name || ...\<close>).
\<close>

datatype author_state = Searching | Error

datatype known_author = KnownAuthor string string "string option"
  \<comment> \<open>\<open>name\<close>, \<open>email\<close>, \<open>username\<close>\<close>

datatype unknown_author = UnknownAuthor string author_state
  \<comment> \<open>\<open>username\<close>, \<open>state\<close>\<close>

datatype author = Known known_author | Unknown unknown_author
  \<comment> \<open>the tag \<open>kind\<close>: \<open>'known'\<close> or \<open>'unknown'\<close>\<close>

datatype known_user_hit = KnownUserHit string "string option" "string option" string
  \<comment> \<open>\<open>username\<close>, \<open>name\<close>, \<open>email\<close>, \<open>endpoint\<close>\<close>

datatype user_hit = Known_user known_user_hit | Unknown_user string
  \<comment> \<open>the tag \<open>kind\<close>: \<open>'known-user'\<close>, or \<open>'unknown-user'\<close> with its \<open>username\<close>\<close>

fun isKnownAuthor :: "author \<Rightarrow> bool" where
  "isKnownAuthor (Known _) = True"
| "isKnownAuthor (Unknown _) = False"

fun known_username :: "known_author \<Rightarrow> string option" where
  "known_username (KnownAuthor name email username) = username"

fun unknown_username :: "unknown_author \<Rightarrow> string" where
  "unknown_username (UnknownAuthor username st) = username"

fun author_username :: "author \<Rightarrow> string option" where
  "author_username (Known k) = known_username k"
| "author_username (Unknown u) = Some (unknown_username u)"

fun known_name :: "known_author \<Rightarrow> string" where
  "known_name (KnownAuthor name email username) = name"

fun known_email :: "known_author \<Rightarrow> string" where
  "known_email (KnownAuthor name email username) = email"

fun hit_username :: "user_hit \<Rightarrow> string" where
  "hit_username (Known_user (KnownUserHit username name email endpoint)) = username"
| "hit_username (Unknown_user username) = username"

text \<open>The free-text field: its text and the caret position (\<open>null\<close> is \<open>None\<close>).\<close>

record html_input =
  input_value :: string
  selectionStart :: "nat option"

text \<open>
  The component as its methods see it: the props \<open>authors\<close>, the state
  \<open>focusedAuthorIndex\<close>, the field \<open>inputRef\<close> (\<open>None\<close> until the input is mounted), and the
  two collaborators as call logs: \<open>onAuthorsUpdated\<close> holds the argument of every call of
  the list-changed callback, \<open>exactMatch\<close> the argument of every lookup issued to the
  provider, both in call order.

  Props are read-only for the component: no method assigns \<open>this.props.authors\<close>. The
  parent replaces them when it renders again, which is \<open>receiveProps\<close>.
\<close>

record author_input =
  authors :: "author list"
  focusedAuthorIndex :: "int option"
  inputRef :: "html_input option"
  onAuthorsUpdated :: "author list list"
  exactMatch :: "string list"

definition receiveProps :: "author_input \<Rightarrow> author list \<Rightarrow> author_input" where
  "receiveProps c newAuthors = c\<lparr>authors := newAuthors\<rparr>"

subsection \<open>From a user hit to a known author\<close>

text \<open>
  \<open>getLegacyStealthEmailForUser\<close> is imported from \<open>lib/email\<close>, which is not among the
  sources; it is a parameter of the functions that reach it.
\<close>

fun getEmailAddressForUser :: "(string \<Rightarrow> string \<Rightarrow> string) \<Rightarrow> known_user_hit \<Rightarrow> string" where
  "getEmailAddressForUser getLegacyStealthEmailForUser (KnownUserHit username name email endpoint) =
     (case email of
        None \<Rightarrow> getLegacyStealthEmailForUser username endpoint
      | Some e \<Rightarrow>
          if e \<noteq> [] \<and> length e > 0 then e
          else getLegacyStealthEmailForUser username endpoint)"

fun authorFromUserHit :: "(string \<Rightarrow> string \<Rightarrow> string) \<Rightarrow> known_user_hit \<Rightarrow> known_author" where
  "authorFromUserHit getLegacyStealthEmailForUser (KnownUserHit username name email endpoint) =
     KnownAuthor
       (case name of None \<Rightarrow> username | Some n \<Rightarrow> if n \<noteq> [] then n else username)
       (getEmailAddressForUser getLegacyStealthEmailForUser
          (KnownUserHit username name email endpoint))
       (Some username)"

subsection \<open>Suggestion filter\<close>

definition getAutocompleteItemFilter :: "author list \<Rightarrow> user_hit \<Rightarrow> bool" where
  "getAutocompleteItemFilter authors' item =
     (case item of
        Unknown_user _ \<Rightarrow> True
      | Known_user h \<Rightarrow>
          (let usernames = map author_username authors'
           in \<not> list_ex (\<lambda>u. u = Some (hit_username item)) usernames))"

text \<open>
  Modelled from the spec: the autocompleting input that applies the filter is not among
  the sources; the suggestion set offered to the field is the candidates that pass the
  filter, in their order.
\<close>

definition suggestionSet :: "author list \<Rightarrow> user_hit list \<Rightarrow> user_hit list" where
  "suggestionSet authors' candidates = filter (getAutocompleteItemFilter authors') candidates"

subsection \<open>Methods of the component\<close>

definition emitAuthorsUpdated :: "author_input \<Rightarrow> author list \<Rightarrow> author_input" where
  "emitAuthorsUpdated c addedAuthors =
     c\<lparr>onAuthorsUpdated := onAuthorsUpdated c @ [addedAuthors]\<rparr>"

definition focusAuthorHandle :: "author_input \<Rightarrow> int option \<Rightarrow> author_input" where
  "focusAuthorHandle c index = c\<lparr>focusedAuthorIndex := index\<rparr>"

definition removeAuthor :: "author_input \<Rightarrow> int \<Rightarrow> author_input" where
  "removeAuthor c index =
     (if index \<ge> 0 \<and> index < int (length (authors c)) then
        (let newAuthors = slice (authors c) 0 (Some index) @ slice (authors c) (index + 1) None;
             newFocusedAuthorIndex =
               (if index = int (length (authors c)) - 1 then None else Some index)
         in emitAuthorsUpdated (focusAuthorHandle c newFocusedAuthorIndex) newAuthors)
      else c)"

definition focusPreviousAuthor :: "author_input \<Rightarrow> author_input" where
  "focusPreviousAuthor c =
     (case focusedAuthorIndex c of
        None \<Rightarrow> focusAuthorHandle c (Some (int (length (authors c)) - 1))
      | Some i \<Rightarrow> if i > 0 then focusAuthorHandle c (Some (i - 1)) else c)"

definition focusNextAuthor :: "author_input \<Rightarrow> author_input" where
  "focusNextAuthor c =
     (case focusedAuthorIndex c of
        Some i \<Rightarrow>
          if i < int (length (authors c)) - 1 then focusAuthorHandle c (Some (i + 1))
          else focusAuthorHandle c None
      | None \<Rightarrow> focusAuthorHandle c None)"

definition onInputFocus :: "author_input \<Rightarrow> author_input" where
  "onInputFocus c = c\<lparr>focusedAuthorIndex := None\<rparr>"

definition onAuthorKeyDown :: "author_input \<Rightarrow> string \<Rightarrow> author_input" where
  "onAuthorKeyDown c key =
     (if key = ''ArrowLeft'' then focusPreviousAuthor c
      else if key = ''ArrowRight'' then focusNextAuthor c
      else (case focusedAuthorIndex c of
              Some i \<Rightarrow> if key = ''Backspace'' \<or> key = ''Delete'' then removeAuthor c i else c
            | None \<Rightarrow> c))"

definition updateUnknownAuthor :: "author_input \<Rightarrow> author \<Rightarrow> author_input" where
  "updateUnknownAuthor c author' =
     (let newAuthors =
            map (\<lambda>a. if map_option toLowerCase (author_username a)
                           = map_option toLowerCase (author_username author')
                         \<and> \<not> isKnownAuthor a
                      then author' else a)
                (authors c)
      in emitAuthorsUpdated c newAuthors)"

text \<open>\<open>authors.filter(isKnownAuthor)\<close>, which narrows the element type.\<close>

fun filter_isKnownAuthor :: "author list \<Rightarrow> known_author list" where
  "filter_isKnownAuthor [] = []"
| "filter_isKnownAuthor (Known k # as) = k # filter_isKnownAuthor as"
| "filter_isKnownAuthor (Unknown u # as) = filter_isKnownAuthor as"

text \<open>
  \<open>attemptUnknownAuthorSearch\<close> is asynchronous. Its part before the \<open>await\<close> runs inside
  the caller: it either finishes through \<open>updateUnknownAuthor\<close>, or calls \<open>exactMatch\<close> and
  suspends. \<open>attemptUnknownAuthorSearch_resume\<close> is the part after the \<open>await\<close>; it runs
  when the lookup has answered with \<open>hit\<close> (\<open>null\<close> is \<open>None\<close>), on the component as it is
  then. A lookup that rejects never resumes.
\<close>

definition attemptUnknownAuthorSearch :: "author_input \<Rightarrow> unknown_author \<Rightarrow> author_input" where
  "attemptUnknownAuthorSearch c author' =
     (case find (\<lambda>a. map_option toLowerCase (known_username a)
                        = Some (toLowerCase (unknown_username author')))
                (filter_isKnownAuthor (authors c)) of
        Some knownAuthor \<Rightarrow> updateUnknownAuthor c (Known knownAuthor)
      | None \<Rightarrow> c\<lparr>exactMatch := exactMatch c @ [unknown_username author']\<rparr>)"

definition attemptUnknownAuthorSearch_resume ::
    "(string \<Rightarrow> string \<Rightarrow> string) \<Rightarrow> author_input \<Rightarrow> unknown_author \<Rightarrow> user_hit option
      \<Rightarrow> author_input" where
  "attemptUnknownAuthorSearch_resume getLegacyStealthEmailForUser c author' hit =
     (case hit of
        Some (Known_user h) \<Rightarrow>
          updateUnknownAuthor c (Known (authorFromUserHit getLegacyStealthEmailForUser h))
      | _ \<Rightarrow> updateUnknownAuthor c (Unknown (UnknownAuthor (unknown_username author') Error)))"

definition onAutocompleteItemSelected ::
    "(string \<Rightarrow> string \<Rightarrow> string) \<Rightarrow> author_input \<Rightarrow> user_hit \<Rightarrow> author_input" where
  "onAutocompleteItemSelected getLegacyStealthEmailForUser c item =
     (let authorToAdd =
            (case item of
               Known_user h \<Rightarrow> Known (authorFromUserHit getLegacyStealthEmailForUser h)
             | Unknown_user username \<Rightarrow> Unknown (UnknownAuthor username Searching));
          newAuthors = authors c @ [authorToAdd];
          c1 = emitAuthorsUpdated c newAuthors;
          c2 = (case authorToAdd of
                  Unknown u \<Rightarrow> attemptUnknownAuthorSearch c1 u
                | Known _ \<Rightarrow> c1)
      in case inputRef c2 of
           None \<Rightarrow> c2
         | Some inp \<Rightarrow>
             c2\<lparr>inputRef := Some (inp\<lparr>input_value := [],
                                      selectionStart := map_option (\<lambda>_. 0) (selectionStart inp)\<rparr>)\<rparr>)"

definition onInputKeyDown ::
    "(string \<Rightarrow> string \<Rightarrow> string) \<Rightarrow> author_input \<Rightarrow> string \<Rightarrow> author_input" where
  "onInputKeyDown getLegacyStealthEmailForUser c key =
     (case inputRef c of
        None \<Rightarrow> c
      | Some inp \<Rightarrow>
          (let c1 = (if key = ''Backspace'' \<and> selectionStart inp = Some 0
                     then removeAuthor c (int (length (authors c)) - 1) else c);
               c2 = (if key = ''ArrowLeft'' \<and> selectionStart inp = Some 0
                     then focusPreviousAuthor c1 else c1)
           in if key = '' '' \<and> selectionStart inp = Some (length (input_value inp)) then
                (let v = trim (input_value inp)
                 in if length v \<noteq> 0
                    then onAutocompleteItemSelected getLegacyStealthEmailForUser c2 (Unknown_user v)
                    else c2)
              else c2))"

text \<open>
  \<open>onAuthorClick\<close> computes the index of the clicked element among its siblings in the
  DOM (\<open>indexOf\<close>, which may be \<open>-1\<close>); that index is the argument here.
\<close>

definition onAuthorClick :: "author_input \<Rightarrow> int \<Rightarrow> author_input" where
  "onAuthorClick c index = focusAuthorHandle c (Some index)"

text \<open>The focus state is "none" or an index into the list.\<close>

definition focusValid :: "author_input \<Rightarrow> bool" where
  "focusValid c =
     (case focusedAuthorIndex c of
        None \<Rightarrow> True
      | Some i \<Rightarrow> 0 \<le> i \<and> i < int (length (authors c)))"

subsection \<open>Example values\<close>

text \<open>
  A freshly constructed component (\<open>focusedAuthorIndex\<close> is \<open>null\<close>, nothing reported
  yet) with the given props, whose input is mounted with a text and a caret position.
\<close>

definition mounted :: "author list \<Rightarrow> string \<Rightarrow> nat \<Rightarrow> author_input" where
  "mounted as text caret =
     \<lparr>authors = as, focusedAuthorIndex = None,
      inputRef = Some \<lparr>input_value = text, selectionStart = Some caret\<rparr>,
      onAuthorsUpdated = [], exactMatch = []\<rparr>"

definition amy :: known_author where
  "amy = KnownAuthor ''Amy A'' ''amy@x'' (Some ''amy'')"

definition bob_hit :: known_user_hit where
  "bob_hit = KnownUserHit ''Bob'' (Some ''Bob B'') (Some ''bob@x'') ''api.example''"

definition waiting :: "author list" where
  "waiting = [Known amy, Unknown (UnknownAuthor ''bob'' Searching),
              Unknown (UnknownAuthor ''BOB'' Searching), Unknown (UnknownAuthor ''cy'' Searching)]"

text \<open>A stand-in for the stealth address of \<open>lib/email\<close>, used in examples only.\<close>

definition exampleStealthEmail :: "string \<Rightarrow> string \<Rightarrow> string" where
  "exampleStealthEmail login endpoint = login @ ''@users.noreply.'' @ endpoint"

section \<open>Properties\<close>

subsection \<open>Auxiliary facts\<close>

lemma toLowerCase_examples:
  "toLowerCase ''amy'' = ''amy''" "toLowerCase ''Amy'' = ''amy''" "toLowerCase ''AMY'' = ''amy''"
  "toLowerCase ''bob'' = ''bob''" "toLowerCase ''BOB'' = ''bob''" "toLowerCase ''Bob'' = ''bob''"
  "toLowerCase ''cy'' = ''cy''"
  by code_simp+


lemma slice_prefix:
  "0 \<le> i \<Longrightarrow> i < int (length xs) \<Longrightarrow> slice xs 0 (Some i) = take (nat i) xs"
  by (simp add: slice_def Let_def)

lemma slice_suffix:
  "0 \<le> i \<Longrightarrow> i < int (length xs) \<Longrightarrow> slice xs (i + 1) None = drop (Suc (nat i)) xs"
  by (simp add: slice_def Let_def nat_add_distrib)

lemma removeAuthor_out_of_range:
  "index < 0 \<or> int (length (authors c)) \<le> index \<Longrightarrow> removeAuthor c index = c"
  by (auto simp: removeAuthor_def)

lemma removeAuthor_in_range:
  assumes "0 \<le> index" "index < int (length (authors c))"
  shows "removeAuthor c index =
           c\<lparr>focusedAuthorIndex :=
                (if index = int (length (authors c)) - 1 then None else Some index),
             onAuthorsUpdated :=
                onAuthorsUpdated c @
                  [take (nat index) (authors c) @ drop (Suc (nat index)) (authors c)]\<rparr>"
  using assms
  by (simp add: removeAuthor_def Let_def slice_prefix slice_suffix emitAuthorsUpdated_def
      focusAuthorHandle_def)

lemma remove_nth_length:
  "k < length xs \<Longrightarrow> length (take k xs @ drop (Suc k) xs) = length xs - 1"
  by simp

lemma remove_nth_before:
  "k < length xs \<Longrightarrow> j < k \<Longrightarrow> (take k xs @ drop (Suc k) xs) ! j = xs ! j"
  by (simp add: nth_append)

lemma remove_nth_after:
  "k < length xs \<Longrightarrow> k \<le> j \<Longrightarrow> j < length xs - 1
    \<Longrightarrow> (take k xs @ drop (Suc k) xs) ! j = xs ! Suc j"
  by (simp add: nth_append min_def)

text \<open>
  The list transform of \<open>updateUnknownAuthor\<close>, by cases on the entry: a known entry
  stays, an unknown one is replaced when its lower-cased username is that of the
  replacement.
\<close>

lemma updateUnknownAuthor_eq:
  "updateUnknownAuthor c r =
     c\<lparr>onAuthorsUpdated := onAuthorsUpdated c @
        [map (\<lambda>a. case a of
                     Unknown u \<Rightarrow>
                       if Some (toLowerCase (unknown_username u))
                            = map_option toLowerCase (author_username r)
                       then r else a
                   | Known k \<Rightarrow> a)
             (authors c)]\<rparr>"
proof -
  have "(\<lambda>a. if map_option toLowerCase (author_username a)
                  = map_option toLowerCase (author_username r) \<and> \<not> isKnownAuthor a
              then r else a)
        = (\<lambda>a. case a of
                     Unknown u \<Rightarrow>
                       if Some (toLowerCase (unknown_username u))
                            = map_option toLowerCase (author_username r)
                       then r else a
                   | Known k \<Rightarrow> a)"
    by (rule ext) (simp split: author.splits)
  then show ?thesis
    by (simp add: updateUnknownAuthor_def emitAuthorsUpdated_def)
qed

lemma find_filter_isKnownAuthor_Some:
  "find P (filter_isKnownAuthor as) = Some k \<Longrightarrow> Known k \<in> set as \<and> P k"
  by (induction as rule: filter_isKnownAuthor.induct) (auto split: if_splits)

lemma find_filter_isKnownAuthor_None:
  "find P (filter_isKnownAuthor as) = None \<Longrightarrow> Known k \<in> set as \<Longrightarrow> \<not> P k"
  by (induction as rule: filter_isKnownAuthor.induct) (auto split: if_splits)

lemma author_username_authorFromUserHit:
  "author_username (Known (authorFromUserHit g h)) = Some (hit_username (Known_user h))"
  by (cases h) simp

lemma attemptUnknownAuthorSearch_frame:
  "authors (attemptUnknownAuthorSearch c u) = authors c"
  "inputRef (attemptUnknownAuthorSearch c u) = inputRef c"
  "focusedAuthorIndex (attemptUnknownAuthorSearch c u) = focusedAuthorIndex c"
  by (simp_all add: attemptUnknownAuthorSearch_def updateUnknownAuthor_eq split: option.splits)



text \<open>The commit, with the branch on the new author resolved by the kind of the item.\<close>

lemma onAutocompleteItemSelected_unfold:
  "onAutocompleteItemSelected g c item =
     (let c2 = (case item of
                  Known_user h \<Rightarrow> emitAuthorsUpdated c (authors c @ [Known (authorFromUserHit g h)])
                | Unknown_user username \<Rightarrow>
                    attemptUnknownAuthorSearch
                      (emitAuthorsUpdated c (authors c @ [Unknown (UnknownAuthor username Searching)]))
                      (UnknownAuthor username Searching))
      in c2\<lparr>inputRef :=
              map_option (\<lambda>inp. inp\<lparr>input_value := [],
                                     selectionStart := map_option (\<lambda>_. 0) (selectionStart inp)\<rparr>)
                (inputRef c2)\<rparr>)"
  by (cases item; cases "inputRef c")
     (simp_all add: onAutocompleteItemSelected_def Let_def emitAuthorsUpdated_def
        attemptUnknownAuthorSearch_frame split: option.splits)


lemma attemptUnknownAuthorSearch_resume_eq:
  "attemptUnknownAuthorSearch_resume g c pending hit =
     updateUnknownAuthor c
       (case hit of
          Some (Known_user h) \<Rightarrow> Known (authorFromUserHit g h)
        | _ \<Rightarrow> Unknown (UnknownAuthor (unknown_username pending) Error))"
  by (simp add: attemptUnknownAuthorSearch_resume_def split: option.splits user_hit.splits)

lemma updateUnknownAuthor_known_kept:
  "\<exists>newAuthors.
     onAuthorsUpdated (updateUnknownAuthor c r) = onAuthorsUpdated c @ [newAuthors] \<and>
     length newAuthors = length (authors c) \<and>
     (\<forall>i < length (authors c). isKnownAuthor (authors c ! i) \<longrightarrow> newAuthors ! i = authors c ! i)"
  by (auto simp: updateUnknownAuthor_eq split: author.splits)

lemma updateUnknownAuthor_no_match:
  assumes "\<forall>a \<in> set (authors c).
             isKnownAuthor a \<or>
             map_option toLowerCase (author_username a)
               \<noteq> map_option toLowerCase (author_username r)"
  shows "updateUnknownAuthor c r = c\<lparr>onAuthorsUpdated := onAuthorsUpdated c @ [authors c]\<rparr>"
proof -
  have "map (\<lambda>a. if map_option toLowerCase (author_username a)
                       = map_option toLowerCase (author_username r) \<and> \<not> isKnownAuthor a
                   then r else a) (authors c) = authors c"
    using assms by (intro map_idI) auto
  then show ?thesis
    by (simp add: updateUnknownAuthor_def emitAuthorsUpdated_def)
qed

subsection \<open>Resolving against an entry that is already known\<close>

text \<open>
  Claim C1. When the list handed to \<open>attemptUnknownAuthorSearch\<close> holds a known author
  whose username equals the pending token's username up to letter case, the search ends
  before its \<open>await\<close>: no \<open>exactMatch\<close> call is issued, and the callback receives the list
  in which every unknown entry with that username (up to case) has become that very known
  entry of the list, all other entries unchanged.
\<close>

theorem attemptUnknownAuthorSearch_known_duplicate:
  assumes present: "Known k0 \<in> set (authors c)"
    and matches: "map_option toLowerCase (known_username k0)
                    = Some (toLowerCase (unknown_username pending))"
  shows "\<exists>k. Known k \<in> set (authors c) \<and>
            map_option toLowerCase (known_username k)
              = Some (toLowerCase (unknown_username pending)) \<and>
            exactMatch (attemptUnknownAuthorSearch c pending) = exactMatch c \<and>
            onAuthorsUpdated (attemptUnknownAuthorSearch c pending) =
              onAuthorsUpdated c @
                [map (\<lambda>a. case a of
                             Unknown u \<Rightarrow>
                               if toLowerCase (unknown_username u)
                                    = toLowerCase (unknown_username pending)
                               then Known k else a
                           | Known k' \<Rightarrow> a)
                     (authors c)]"
proof -
  let ?P = "\<lambda>a. map_option toLowerCase (known_username a)
                  = Some (toLowerCase (unknown_username pending))"
  obtain k where found: "find ?P (filter_isKnownAuthor (authors c)) = Some k"
    using find_filter_isKnownAuthor_None [of ?P "authors c" k0] present matches
    by (cases "find ?P (filter_isKnownAuthor (authors c))") auto
  then have k: "Known k \<in> set (authors c)" "?P k"
    using find_filter_isKnownAuthor_Some [of ?P "authors c" k] by simp_all
  have run: "attemptUnknownAuthorSearch c pending = updateUnknownAuthor c (Known k)"
    using found by (simp add: attemptUnknownAuthorSearch_def)
  have key: "map_option toLowerCase (author_username (Known k))
               = Some (toLowerCase (unknown_username pending))"
    using k(2) by simp
  have "onAuthorsUpdated (attemptUnknownAuthorSearch c pending) =
              onAuthorsUpdated c @
                [map (\<lambda>a. case a of
                             Unknown u \<Rightarrow>
                               if toLowerCase (unknown_username u)
                                    = toLowerCase (unknown_username pending)
                               then Known k else a
                           | Known k' \<Rightarrow> a)
                     (authors c)]"
    unfolding run updateUnknownAuthor_eq key by (simp split: author.splits)
  moreover have "exactMatch (attemptUnknownAuthorSearch c pending) = exactMatch c"
    unfolding run updateUnknownAuthor_eq by simp
  ultimately show ?thesis
    using k by blast
qed

theorem attemptUnknownAuthorSearch_known_duplicate_witness:
  "Known amy \<in> set (authors (mounted [Known amy, Unknown (UnknownAuthor ''AMY'' Searching),
                                       Unknown (UnknownAuthor ''bob'' Searching)] [] 0)) \<and>
   map_option toLowerCase (known_username amy)
     = Some (toLowerCase (unknown_username (UnknownAuthor ''Amy'' Searching))) \<and>
   exactMatch (attemptUnknownAuthorSearch
       (mounted [Known amy, Unknown (UnknownAuthor ''AMY'' Searching),
                 Unknown (UnknownAuthor ''bob'' Searching)] [] 0)
       (UnknownAuthor ''Amy'' Searching)) = [] \<and>
   onAuthorsUpdated (attemptUnknownAuthorSearch
       (mounted [Known amy, Unknown (UnknownAuthor ''AMY'' Searching),
                 Unknown (UnknownAuthor ''bob'' Searching)] [] 0)
       (UnknownAuthor ''Amy'' Searching))
     = [[Known amy, Known amy, Unknown (UnknownAuthor ''bob'' Searching)]]"
proof -
  let ?c = "mounted [Known amy, Unknown (UnknownAuthor ''AMY'' Searching),
                     Unknown (UnknownAuthor ''bob'' Searching)] [] 0"
  have p: "Known amy \<in> set (authors ?c)"
    by (simp add: mounted_def)
  have m: "map_option toLowerCase (known_username amy)
             = Some (toLowerCase (unknown_username (UnknownAuthor ''Amy'' Searching)))"
    by (simp add: amy_def toLowerCase_examples)
  from attemptUnknownAuthorSearch_known_duplicate [OF p m] p m show ?thesis
    by (auto simp: mounted_def toLowerCase_examples)
qed

subsection \<open>Removing a token\<close>

text \<open>
  Claim C4. \<open>removeAuthor\<close> checks the index against the list. Out of range it does
  nothing: the component is unchanged, so the list is not touched and no callback is
  made. For an index \<open>i\<close> in range of a list of length \<open>n\<close> it reports exactly one new
  list, of length \<open>n - 1\<close>, whose entries before \<open>i\<close> are the old ones and whose entries
  from \<open>i\<close> on are the old ones one place further; the focus becomes "none" when
  \<open>i = n - 1\<close> and \<open>i\<close> otherwise.
\<close>

theorem removeAuthor_bounds_checked:
  fixes c :: author_input and i :: int
  defines "n \<equiv> length (authors c)"
  defines "c' \<equiv> removeAuthor c i"
  defines "newAuthors \<equiv> take (nat i) (authors c) @ drop (Suc (nat i)) (authors c)"
  shows "(i < 0 \<or> int n \<le> i \<longrightarrow> c' = c) \<and>
         (0 \<le> i \<and> i < int n \<longrightarrow>
            onAuthorsUpdated c' = onAuthorsUpdated c @ [newAuthors] \<and>
            length newAuthors = n - 1 \<and>
            (\<forall>j < nat i. newAuthors ! j = authors c ! j) \<and>
            (\<forall>j. nat i \<le> j \<and> j < n - 1 \<longrightarrow> newAuthors ! j = authors c ! Suc j) \<and>
            focusedAuthorIndex c' = (if i = int n - 1 then None else Some i) \<and>
            authors c' = authors c \<and> inputRef c' = inputRef c \<and>
            exactMatch c' = exactMatch c)"
proof (intro conjI impI)
  assume "i < 0 \<or> int n \<le> i"
  then show "c' = c"
    unfolding c'_def n_def by (rule removeAuthor_out_of_range)
next
  assume r: "0 \<le> i \<and> i < int n"
  then have k: "nat i < length (authors c)"
    unfolding n_def by linarith
  from r have eq: "c' = c\<lparr>focusedAuthorIndex := (if i = int n - 1 then None else Some i),
             onAuthorsUpdated := onAuthorsUpdated c @ [newAuthors]\<rparr>"
    unfolding c'_def n_def newAuthors_def by (simp add: removeAuthor_in_range)
  show "onAuthorsUpdated c' = onAuthorsUpdated c @ [newAuthors]"
    and "focusedAuthorIndex c' = (if i = int n - 1 then None else Some i)"
    and "authors c' = authors c" and "inputRef c' = inputRef c"
    and "exactMatch c' = exactMatch c"
    by (simp_all add: eq)
  show "length newAuthors = n - 1"
    unfolding newAuthors_def n_def using k by (rule remove_nth_length)
  show "\<forall>j < nat i. newAuthors ! j = authors c ! j"
    unfolding newAuthors_def using k by (simp add: remove_nth_before)
  show "\<forall>j. nat i \<le> j \<and> j < n - 1 \<longrightarrow> newAuthors ! j = authors c ! Suc j"
    unfolding newAuthors_def n_def using k by (simp add: remove_nth_after)
qed

theorem removeAuthor_bounds_checked_witness:
  "removeAuthor (mounted [Known amy, Unknown (UnknownAuthor ''bob'' Error),
                          Unknown (UnknownAuthor ''cy'' Searching)] [] 0) 3
     = mounted [Known amy, Unknown (UnknownAuthor ''bob'' Error),
                Unknown (UnknownAuthor ''cy'' Searching)] [] 0 \<and>
   removeAuthor (mounted [Known amy, Unknown (UnknownAuthor ''bob'' Error),
                          Unknown (UnknownAuthor ''cy'' Searching)] [] 0) (- 1)
     = mounted [Known amy, Unknown (UnknownAuthor ''bob'' Error),
                Unknown (UnknownAuthor ''cy'' Searching)] [] 0 \<and>
   onAuthorsUpdated (removeAuthor (mounted [Known amy, Unknown (UnknownAuthor ''bob'' Error),
                          Unknown (UnknownAuthor ''cy'' Searching)] [] 0) 1)
     = [[Known amy, Unknown (UnknownAuthor ''cy'' Searching)]] \<and>
   focusedAuthorIndex (removeAuthor (mounted [Known amy, Unknown (UnknownAuthor ''bob'' Error),
                          Unknown (UnknownAuthor ''cy'' Searching)] [] 0) 1) = Some 1 \<and>
   focusedAuthorIndex (removeAuthor (mounted [Known amy, Unknown (UnknownAuthor ''bob'' Error),
                          Unknown (UnknownAuthor ''cy'' Searching)] [] 0) 2) = None"
proof -
  let ?c = "mounted [Known amy, Unknown (UnknownAuthor ''bob'' Error),
                     Unknown (UnknownAuthor ''cy'' Searching)] [] 0"
  show ?thesis
    using removeAuthor_bounds_checked [of 3 ?c] removeAuthor_bounds_checked [of "- 1" ?c]
      removeAuthor_bounds_checked [of 1 ?c] removeAuthor_bounds_checked [of 2 ?c]
    by (simp add: mounted_def)
qed

subsection \<open>Completion of a lookup\<close>

text \<open>
  Claim C2. When the lookup answers, \<open>attemptUnknownAuthorSearch\<close> resumes and reports one
  list, computed from the list the component holds at that moment. If the answer is
  \<open>null\<close> or not a known-user hit, every unknown entry whose username equals the pending
  username up to letter case becomes the pending token in state \<open>error\<close>. If the answer
  is a known-user hit, every unknown entry whose username equals the username of the hit
  up to letter case becomes the known author derived from the hit; for a hit that carries
  the username that was asked for (up to case), these are the entries that match the
  pending username. In every case the reported list has the length of the current one
  and agrees with it at every position that holds a known author.
\<close>

theorem attemptUnknownAuthorSearch_resume_replaces:
  fixes g c pending hit
  defines "c' \<equiv> attemptUnknownAuthorSearch_resume g c pending hit"
  shows
   "(hit = None \<or> (\<exists>username. hit = Some (Unknown_user username)) \<longrightarrow>
       onAuthorsUpdated c' = onAuthorsUpdated c @
         [map (\<lambda>a. case a of
                      Unknown u \<Rightarrow>
                        if toLowerCase (unknown_username u) = toLowerCase (unknown_username pending)
                        then Unknown (UnknownAuthor (unknown_username pending) Error) else a
                    | Known k \<Rightarrow> a)
              (authors c)]) \<and>
    (\<forall>h. hit = Some (Known_user h) \<longrightarrow>
       onAuthorsUpdated c' = onAuthorsUpdated c @
         [map (\<lambda>a. case a of
                      Unknown u \<Rightarrow>
                        if toLowerCase (unknown_username u)
                             = toLowerCase (hit_username (Known_user h))
                        then Known (authorFromUserHit g h) else a
                    | Known k \<Rightarrow> a)
              (authors c)]) \<and>
    (\<forall>h. hit = Some (Known_user h) \<and>
          toLowerCase (hit_username (Known_user h)) = toLowerCase (unknown_username pending) \<longrightarrow>
       onAuthorsUpdated c' = onAuthorsUpdated c @
         [map (\<lambda>a. case a of
                      Unknown u \<Rightarrow>
                        if toLowerCase (unknown_username u) = toLowerCase (unknown_username pending)
                        then Known (authorFromUserHit g h) else a
                    | Known k \<Rightarrow> a)
              (authors c)]) \<and>
    (\<exists>newAuthors.
       onAuthorsUpdated c' = onAuthorsUpdated c @ [newAuthors] \<and>
       length newAuthors = length (authors c) \<and>
       (\<forall>i < length (authors c).
          isKnownAuthor (authors c ! i) \<longrightarrow> newAuthors ! i = authors c ! i)) \<and>
    authors c' = authors c \<and> exactMatch c' = exactMatch c"
proof -
  have miss: "hit = None \<or> (\<exists>username. hit = Some (Unknown_user username)) \<longrightarrow>
       onAuthorsUpdated c' = onAuthorsUpdated c @
         [map (\<lambda>a. case a of
                      Unknown u \<Rightarrow>
                        if toLowerCase (unknown_username u) = toLowerCase (unknown_username pending)
                        then Unknown (UnknownAuthor (unknown_username pending) Error) else a
                    | Known k \<Rightarrow> a)
              (authors c)]"
    by (auto simp: c'_def attemptUnknownAuthorSearch_resume_eq updateUnknownAuthor_eq
        split: author.splits)
  have found: "\<forall>h. hit = Some (Known_user h) \<longrightarrow>
       onAuthorsUpdated c' = onAuthorsUpdated c @
         [map (\<lambda>a. case a of
                      Unknown u \<Rightarrow>
                        if toLowerCase (unknown_username u)
                             = toLowerCase (hit_username (Known_user h))
                        then Known (authorFromUserHit g h) else a
                    | Known k \<Rightarrow> a)
              (authors c)]"
    by (auto simp: c'_def attemptUnknownAuthorSearch_resume_eq updateUnknownAuthor_eq
        author_username_authorFromUserHit simp del: author_username.simps split: author.splits)
  have found_same: "\<forall>h. hit = Some (Known_user h) \<and>
          toLowerCase (hit_username (Known_user h)) = toLowerCase (unknown_username pending) \<longrightarrow>
       onAuthorsUpdated c' = onAuthorsUpdated c @
         [map (\<lambda>a. case a of
                      Unknown u \<Rightarrow>
                        if toLowerCase (unknown_username u) = toLowerCase (unknown_username pending)
                        then Known (authorFromUserHit g h) else a
                    | Known k \<Rightarrow> a)
              (authors c)]"
    using found by (auto split: author.splits)
  have known_kept: "\<exists>newAuthors.
       onAuthorsUpdated c' = onAuthorsUpdated c @ [newAuthors] \<and>
       length newAuthors = length (authors c) \<and>
       (\<forall>i < length (authors c).
          isKnownAuthor (authors c ! i) \<longrightarrow> newAuthors ! i = authors c ! i)"
    unfolding c'_def attemptUnknownAuthorSearch_resume_eq
    by (rule updateUnknownAuthor_known_kept)
  have frame: "authors c' = authors c" "exactMatch c' = exactMatch c"
    by (simp_all add: c'_def attemptUnknownAuthorSearch_resume_eq updateUnknownAuthor_eq)
  show ?thesis
    by (intro conjI) (fact miss found found_same known_kept frame)+
qed

theorem attemptUnknownAuthorSearch_resume_replaces_witness:
  "toLowerCase (hit_username (Known_user bob_hit))
     = toLowerCase (unknown_username (UnknownAuthor ''bob'' Searching)) \<and>
   onAuthorsUpdated (attemptUnknownAuthorSearch_resume exampleStealthEmail (mounted waiting [] 0)
       (UnknownAuthor ''bob'' Searching) None)
     = [[Known amy, Unknown (UnknownAuthor ''bob'' Error),
         Unknown (UnknownAuthor ''bob'' Error), Unknown (UnknownAuthor ''cy'' Searching)]] \<and>
   onAuthorsUpdated (attemptUnknownAuthorSearch_resume exampleStealthEmail (mounted waiting [] 0)
       (UnknownAuthor ''bob'' Searching) (Some (Unknown_user ''bob'')))
     = [[Known amy, Unknown (UnknownAuthor ''bob'' Error),
         Unknown (UnknownAuthor ''bob'' Error), Unknown (UnknownAuthor ''cy'' Searching)]] \<and>
   onAuthorsUpdated (attemptUnknownAuthorSearch_resume exampleStealthEmail (mounted waiting [] 0)
       (UnknownAuthor ''bob'' Searching) (Some (Known_user bob_hit)))
     = [[Known amy, Known (KnownAuthor ''Bob B'' ''bob@x'' (Some ''Bob'')),
         Known (KnownAuthor ''Bob B'' ''bob@x'' (Some ''Bob'')),
         Unknown (UnknownAuthor ''cy'' Searching)]]"
proof -
  let ?c = "mounted waiting [] 0"
  let ?p = "UnknownAuthor ''bob'' Searching"
  have same: "toLowerCase (hit_username (Known_user bob_hit)) = toLowerCase (unknown_username ?p)"
    by (simp add: bob_hit_def toLowerCase_examples)
  have none: "onAuthorsUpdated (attemptUnknownAuthorSearch_resume exampleStealthEmail ?c ?p None)
     = [[Known amy, Unknown (UnknownAuthor ''bob'' Error),
         Unknown (UnknownAuthor ''bob'' Error), Unknown (UnknownAuthor ''cy'' Searching)]]"
    using attemptUnknownAuthorSearch_resume_replaces
      [where g = exampleStealthEmail and c = ?c and pending = ?p and hit = None]
    by (simp add: mounted_def waiting_def toLowerCase_examples)
  have echo: "onAuthorsUpdated (attemptUnknownAuthorSearch_resume exampleStealthEmail ?c ?p
         (Some (Unknown_user ''bob'')))
     = [[Known amy, Unknown (UnknownAuthor ''bob'' Error),
         Unknown (UnknownAuthor ''bob'' Error), Unknown (UnknownAuthor ''cy'' Searching)]]"
    using attemptUnknownAuthorSearch_resume_replaces
      [where g = exampleStealthEmail and c = ?c and pending = ?p
        and hit = "Some (Unknown_user ''bob'')"]
    by (simp add: mounted_def waiting_def toLowerCase_examples)
  have hit: "onAuthorsUpdated (attemptUnknownAuthorSearch_resume exampleStealthEmail ?c ?p
         (Some (Known_user bob_hit)))
     = [[Known amy, Known (KnownAuthor ''Bob B'' ''bob@x'' (Some ''Bob'')),
         Known (KnownAuthor ''Bob B'' ''bob@x'' (Some ''Bob'')),
         Unknown (UnknownAuthor ''cy'' Searching)]]"
    using attemptUnknownAuthorSearch_resume_replaces
      [where g = exampleStealthEmail and c = ?c and pending = ?p
        and hit = "Some (Known_user bob_hit)"] same
    by (simp add: mounted_def waiting_def bob_hit_def toLowerCase_examples)
  show ?thesis
    by (intro conjI) (fact same none echo hit)+
qed

subsection \<open>Committing a token\<close>




subsection \<open>A resolution that finds nothing to replace\<close>

text \<open>
  Claim C5. When no unknown entry of the current list has the username of the
  replacement (up to letter case), \<open>updateUnknownAuthor\<close> reports a list equal to the
  current one, entry by entry, and leaves the props, the focus, the field and the lookup
  log as they are. The same holds for the resumed search when no unknown entry matches
  the pending username nor, for a known-user hit, the username of the hit. The transform
  is a total function without an error result, as the source has no statement that
  throws on this path (\<open>username\<close> is read with \<open>?.\<close>).
\<close>

theorem updateUnknownAuthor_stale_unchanged:
  fixes g c r pending hit
  shows
   "((\<forall>a \<in> set (authors c).
        isKnownAuthor a \<or>
        map_option toLowerCase (author_username a)
          \<noteq> map_option toLowerCase (author_username r)) \<longrightarrow>
      last (onAuthorsUpdated (updateUnknownAuthor c r)) = authors c \<and>
      authors (updateUnknownAuthor c r) = authors c \<and>
      focusedAuthorIndex (updateUnknownAuthor c r) = focusedAuthorIndex c \<and>
      inputRef (updateUnknownAuthor c r) = inputRef c \<and>
      exactMatch (updateUnknownAuthor c r) = exactMatch c) \<and>
    ((\<forall>username st. Unknown (UnknownAuthor username st) \<in> set (authors c) \<longrightarrow>
         toLowerCase username \<noteq> toLowerCase (unknown_username pending) \<and>
         (\<forall>h. hit = Some (Known_user h) \<longrightarrow>
            toLowerCase username \<noteq> toLowerCase (hit_username (Known_user h)))) \<longrightarrow>
      last (onAuthorsUpdated (attemptUnknownAuthorSearch_resume g c pending hit)) = authors c \<and>
      authors (attemptUnknownAuthorSearch_resume g c pending hit) = authors c)"
proof (intro conjI impI)
  assume a: "\<forall>a \<in> set (authors c).
        isKnownAuthor a \<or>
        map_option toLowerCase (author_username a)
          \<noteq> map_option toLowerCase (author_username r)"
  show "last (onAuthorsUpdated (updateUnknownAuthor c r)) = authors c"
    and "authors (updateUnknownAuthor c r) = authors c"
    and "focusedAuthorIndex (updateUnknownAuthor c r) = focusedAuthorIndex c"
    and "inputRef (updateUnknownAuthor c r) = inputRef c"
    and "exactMatch (updateUnknownAuthor c r) = exactMatch c"
    by (simp_all add: updateUnknownAuthor_no_match [OF a])
next
  assume b: "\<forall>username st. Unknown (UnknownAuthor username st) \<in> set (authors c) \<longrightarrow>
         toLowerCase username \<noteq> toLowerCase (unknown_username pending) \<and>
         (\<forall>h. hit = Some (Known_user h) \<longrightarrow>
            toLowerCase username \<noteq> toLowerCase (hit_username (Known_user h)))"
  let ?r = "case hit of
          Some (Known_user h) \<Rightarrow> Known (authorFromUserHit g h)
        | _ \<Rightarrow> Unknown (UnknownAuthor (unknown_username pending) Error)"
  have "\<forall>a \<in> set (authors c).
        isKnownAuthor a \<or>
        map_option toLowerCase (author_username a)
          \<noteq> map_option toLowerCase (author_username ?r)"
  proof
    fix a assume mem: "a \<in> set (authors c)"
    show "isKnownAuthor a \<or>
        map_option toLowerCase (author_username a)
          \<noteq> map_option toLowerCase (author_username ?r)"
    proof (cases a)
      case (Known k)
      then show ?thesis by simp
    next
      case (Unknown u)
      obtain username st where u: "u = UnknownAuthor username st" by (cases u)
      with b mem Unknown have
        "toLowerCase username \<noteq> toLowerCase (unknown_username pending)"
        "\<forall>h. hit = Some (Known_user h) \<longrightarrow>
            toLowerCase username \<noteq> toLowerCase (hit_username (Known_user h))"
        by blast+
      then show ?thesis
        using Unknown u
        by (auto simp: author_username_authorFromUserHit simp del: author_username.simps(1)
            split: option.splits user_hit.splits)
    qed
  qed
  then have "updateUnknownAuthor c ?r = c\<lparr>onAuthorsUpdated := onAuthorsUpdated c @ [authors c]\<rparr>"
    by (rule updateUnknownAuthor_no_match)
  then show "last (onAuthorsUpdated (attemptUnknownAuthorSearch_resume g c pending hit))
      = authors c"
    and "authors (attemptUnknownAuthorSearch_resume g c pending hit) = authors c"
    by (simp_all add: attemptUnknownAuthorSearch_resume_eq)
qed

theorem updateUnknownAuthor_stale_unchanged_witness:
  "list_all (\<lambda>a. isKnownAuthor a \<or>
                map_option toLowerCase (author_username a)
                  \<noteq> map_option toLowerCase
                       (author_username (Unknown (UnknownAuthor ''bob'' Error))))
     (authors (mounted [Known amy, Unknown (UnknownAuthor ''cy'' Searching)] [] 0)) \<and>
   last (onAuthorsUpdated (updateUnknownAuthor
       (mounted [Known amy, Unknown (UnknownAuthor ''cy'' Searching)] [] 0)
       (Unknown (UnknownAuthor ''bob'' Error))))
     = [Known amy, Unknown (UnknownAuthor ''cy'' Searching)] \<and>
   last (onAuthorsUpdated (attemptUnknownAuthorSearch_resume exampleStealthEmail
       (mounted [Known amy, Unknown (UnknownAuthor ''cy'' Searching)] [] 0)
       (UnknownAuthor ''bob'' Searching) (Some (Known_user bob_hit))))
     = [Known amy, Unknown (UnknownAuthor ''cy'' Searching)]"
proof -
  let ?c = "mounted [Known amy, Unknown (UnknownAuthor ''cy'' Searching)] [] 0"
  have gone: "\<forall>a \<in> set (authors ?c).
      isKnownAuthor a \<or>
      map_option toLowerCase (author_username a)
        \<noteq> map_option toLowerCase (author_username (Unknown (UnknownAuthor ''bob'' Error)))"
    by (simp add: mounted_def toLowerCase_examples)
  have gone': "\<forall>username st. Unknown (UnknownAuthor username st) \<in> set (authors ?c) \<longrightarrow>
         toLowerCase username \<noteq> toLowerCase (unknown_username (UnknownAuthor ''bob'' Searching)) \<and>
         (\<forall>h. Some (Known_user bob_hit) = Some (Known_user h) \<longrightarrow>
            toLowerCase username \<noteq> toLowerCase (hit_username (Known_user h)))"
    by (simp add: mounted_def bob_hit_def toLowerCase_examples)
  note t = updateUnknownAuthor_stale_unchanged [where g = exampleStealthEmail and c = ?c
      and r = "Unknown (UnknownAuthor ''bob'' Error)"
      and pending = "UnknownAuthor ''bob'' Searching" and hit = "Some (Known_user bob_hit)"]
  from t gone have a: "last (onAuthorsUpdated (updateUnknownAuthor ?c
       (Unknown (UnknownAuthor ''bob'' Error)))) = authors ?c"
    by blast
  from t gone' have b: "last (onAuthorsUpdated (attemptUnknownAuthorSearch_resume
       exampleStealthEmail ?c (UnknownAuthor ''bob'' Searching) (Some (Known_user bob_hit))))
     = authors ?c"
    by blast
  have l: "authors ?c = [Known amy, Unknown (UnknownAuthor ''cy'' Searching)]"
    by (simp add: mounted_def)
  from gone have "list_all (\<lambda>a. isKnownAuthor a \<or>
                map_option toLowerCase (author_username a)
                  \<noteq> map_option toLowerCase
                       (author_username (Unknown (UnknownAuthor ''bob'' Error))))
     (authors ?c)"
    by (simp add: list_all_iff)
  with a b show ?thesis
    unfolding l by (intro conjI)
qed

text \<open>
  Claim C10. \<open>updateUnknownAuthor\<close> calls the list-changed callback exactly once on every
  run, whatever the list holds, and so does every resumed search. When no entry matched,
  the argument of that call is a list equal to the current one: the stale resolution
  shows as one more call with an unchanged list.
\<close>

theorem updateUnknownAuthor_always_emits:
  fixes g c r pending hit
  shows
   "length (onAuthorsUpdated (updateUnknownAuthor c r)) = Suc (length (onAuthorsUpdated c)) \<and>
    butlast (onAuthorsUpdated (updateUnknownAuthor c r)) = onAuthorsUpdated c \<and>
    length (onAuthorsUpdated (attemptUnknownAuthorSearch_resume g c pending hit))
      = Suc (length (onAuthorsUpdated c)) \<and>
    ((\<forall>a \<in> set (authors c).
        isKnownAuthor a \<or>
        map_option toLowerCase (author_username a)
          \<noteq> map_option toLowerCase (author_username r)) \<longrightarrow>
      onAuthorsUpdated (updateUnknownAuthor c r) = onAuthorsUpdated c @ [authors c])"
proof (intro conjI impI)
  show "length (onAuthorsUpdated (updateUnknownAuthor c r)) = Suc (length (onAuthorsUpdated c))"
    and "butlast (onAuthorsUpdated (updateUnknownAuthor c r)) = onAuthorsUpdated c"
    by (simp_all add: updateUnknownAuthor_eq)
  show "length (onAuthorsUpdated (attemptUnknownAuthorSearch_resume g c pending hit))
      = Suc (length (onAuthorsUpdated c))"
    by (simp add: attemptUnknownAuthorSearch_resume_eq updateUnknownAuthor_eq)
next
  assume "\<forall>a \<in> set (authors c).
        isKnownAuthor a \<or>
        map_option toLowerCase (author_username a)
          \<noteq> map_option toLowerCase (author_username r)"
  then show "onAuthorsUpdated (updateUnknownAuthor c r) = onAuthorsUpdated c @ [authors c]"
    by (simp add: updateUnknownAuthor_no_match)
qed

theorem updateUnknownAuthor_always_emits_witness:
  "list_all (\<lambda>a. isKnownAuthor a \<or>
                map_option toLowerCase (author_username a)
                  \<noteq> map_option toLowerCase
                       (author_username (Unknown (UnknownAuthor ''bob'' Error))))
     (authors (mounted [Known amy, Unknown (UnknownAuthor ''cy'' Searching)] [] 0)) \<and>
   onAuthorsUpdated (updateUnknownAuthor
       (mounted [Known amy, Unknown (UnknownAuthor ''cy'' Searching)] [] 0)
       (Unknown (UnknownAuthor ''bob'' Error)))
     = [[Known amy, Unknown (UnknownAuthor ''cy'' Searching)]]"
proof -
  let ?c = "mounted [Known amy, Unknown (UnknownAuthor ''cy'' Searching)] [] 0"
  have gone: "\<forall>a \<in> set (authors ?c).
      isKnownAuthor a \<or>
      map_option toLowerCase (author_username a)
        \<noteq> map_option toLowerCase (author_username (Unknown (UnknownAuthor ''bob'' Error)))"
    by (simp add: mounted_def toLowerCase_examples)
  note t = updateUnknownAuthor_always_emits [where g = exampleStealthEmail and c = ?c
      and r = "Unknown (UnknownAuthor ''bob'' Error)"
      and pending = "UnknownAuthor ''bob'' Searching" and hit = None]
  from t gone have
    "onAuthorsUpdated (updateUnknownAuthor ?c (Unknown (UnknownAuthor ''bob'' Error)))
     = onAuthorsUpdated ?c @ [authors ?c]"
    by blast
  then have "onAuthorsUpdated (updateUnknownAuthor ?c (Unknown (UnknownAuthor ''bob'' Error)))
     = [[Known amy, Unknown (UnknownAuthor ''cy'' Searching)]]"
    by (simp add: mounted_def)
  moreover from gone have "list_all (\<lambda>a. isKnownAuthor a \<or>
                map_option toLowerCase (author_username a)
                  \<noteq> map_option toLowerCase
                       (author_username (Unknown (UnknownAuthor ''bob'' Error))))
     (authors ?c)"
    by (simp add: list_all_iff)
  ultimately show ?thesis
    by (intro conjI)
qed

subsection \<open>Name and email of a resolved identity\<close>

text \<open>
  Claim C8. The known author made from a known-user hit has the display name of the
  profile as its name when there is one and it is not empty, and the username otherwise;
  its email is the public email of the profile when there is one and it is not empty, and
  otherwise the stealth address computed from the username and the endpoint of the hit.
  Its username is that of the hit. A commit of a known-user suggestion appends exactly
  this author and issues no lookup.
\<close>

theorem authorFromUserHit_fields:
  fixes g c username name email endpoint
  defines "k \<equiv> authorFromUserHit g (KnownUserHit username name email endpoint)"
  shows
   "(\<forall>n. name = Some n \<and> n \<noteq> [] \<longrightarrow> known_name k = n) \<and>
    (name = None \<or> name = Some [] \<longrightarrow> known_name k = username) \<and>
    (\<forall>e. email = Some e \<and> e \<noteq> [] \<longrightarrow> known_email k = e) \<and>
    (email = None \<or> email = Some [] \<longrightarrow> known_email k = g username endpoint) \<and>
    known_username k = Some username \<and>
    onAuthorsUpdated
        (onAutocompleteItemSelected g c (Known_user (KnownUserHit username name email endpoint)))
      = onAuthorsUpdated c @ [authors c @ [Known k]] \<and>
    exactMatch
        (onAutocompleteItemSelected g c (Known_user (KnownUserHit username name email endpoint)))
      = exactMatch c"
  unfolding k_def
  by (auto simp: onAutocompleteItemSelected_unfold emitAuthorsUpdated_def)

theorem authorFromUserHit_fields_witness:
  "authorFromUserHit exampleStealthEmail
       (KnownUserHit ''amy'' (Some ''Amy A'') (Some ''amy@x'') ''api.example'')
     = KnownAuthor ''Amy A'' ''amy@x'' (Some ''amy'') \<and>
   authorFromUserHit exampleStealthEmail (KnownUserHit ''amy'' None None ''api.example'')
     = KnownAuthor ''amy'' ''amy@users.noreply.api.example'' (Some ''amy'') \<and>
   authorFromUserHit exampleStealthEmail (KnownUserHit ''amy'' (Some []) (Some []) ''api.example'')
     = KnownAuthor ''amy'' ''amy@users.noreply.api.example'' (Some ''amy'')"
proof -
  note full = authorFromUserHit_fields [where g = exampleStealthEmail and username = "''amy''"
      and name = "Some ''Amy A''" and email = "Some ''amy@x''" and endpoint = "''api.example''"]
  note bare = authorFromUserHit_fields [where g = exampleStealthEmail and username = "''amy''"
      and name = None and email = None and endpoint = "''api.example''"]
  note blank = authorFromUserHit_fields [where g = exampleStealthEmail and username = "''amy''"
      and name = "Some []" and email = "Some []" and endpoint = "''api.example''"]
  have "known_name (authorFromUserHit exampleStealthEmail
       (KnownUserHit ''amy'' (Some ''Amy A'') (Some ''amy@x'') ''api.example'')) = ''Amy A''"
    "known_email (authorFromUserHit exampleStealthEmail
       (KnownUserHit ''amy'' (Some ''Amy A'') (Some ''amy@x'') ''api.example'')) = ''amy@x''"
    "known_username (authorFromUserHit exampleStealthEmail
       (KnownUserHit ''amy'' (Some ''Amy A'') (Some ''amy@x'') ''api.example'')) = Some ''amy''"
    using full by simp_all
  moreover have "known_name (authorFromUserHit exampleStealthEmail
       (KnownUserHit ''amy'' None None ''api.example'')) = ''amy''"
    "known_email (authorFromUserHit exampleStealthEmail
       (KnownUserHit ''amy'' None None ''api.example'')) = ''amy@users.noreply.api.example''"
    "known_username (authorFromUserHit exampleStealthEmail
       (KnownUserHit ''amy'' None None ''api.example'')) = Some ''amy''"
    using bare by (simp_all add: exampleStealthEmail_def)
  moreover have "known_name (authorFromUserHit exampleStealthEmail
       (KnownUserHit ''amy'' (Some []) (Some []) ''api.example'')) = ''amy''"
    "known_email (authorFromUserHit exampleStealthEmail
       (KnownUserHit ''amy'' (Some []) (Some []) ''api.example''))
     = ''amy@users.noreply.api.example''"
    "known_username (authorFromUserHit exampleStealthEmail
       (KnownUserHit ''amy'' (Some []) (Some []) ''api.example'')) = Some ''amy''"
    using blank by (simp_all add: exampleStealthEmail_def)
  ultimately show ?thesis
    by (simp add: exampleStealthEmail_def)
qed

subsection \<open>The suggestion filter\<close>

text \<open>
  The filter lets every candidate pass that is not a known-user hit. With the author
  \<open>amy\<close> in the list and the free-text candidates \<open>amy\<close> and \<open>bob\<close>, the candidate \<open>amy\<close>
  carries a username of the list and is still offered: the suggestion set is not \<open>[bob]\<close>.
\<close>

theorem suggestionSet_keeps_unknown_user_counterexample:
  "author_username (Known amy) = Some (hit_username (Unknown_user ''amy'')) \<and>
   Unknown_user ''amy''
     \<in> set (suggestionSet [Known amy] [Unknown_user ''amy'', Unknown_user ''bob'']) \<and>
   suggestionSet [Known amy] [Unknown_user ''amy'', Unknown_user ''bob'']
     \<noteq> [Unknown_user ''bob'']"
  by (simp add: suggestionSet_def getAutocompleteItemFilter_def amy_def)

text \<open>
  Claim C7, amended. For every author list, every known-user candidate whose username is
  the username of an entry of the list is excluded from the suggestion set. With the
  author \<open>amy\<close> in the list and the known-user candidates \<open>amy\<close> and \<open>bob\<close>, the suggestion
  set is \<open>[bob]\<close>.
\<close>

theorem suggestionSet_excludes_known_user:
  assumes "a \<in> set as" and "author_username a = Some (hit_username (Known_user h))"
  shows "Known_user h \<notin> set (suggestionSet as candidates)"
proof -
  from assms have "\<exists>u \<in> set (map author_username as). u = Some (hit_username (Known_user h))"
    by force
  then have "\<not> getAutocompleteItemFilter as (Known_user h)"
    by (simp add: getAutocompleteItemFilter_def list_ex_iff)
  then show ?thesis
    by (simp add: suggestionSet_def)
qed

theorem suggestionSet_excludes_known_user_witness:
  "Known amy \<in> set [Known amy] \<and>
   author_username (Known amy)
     = Some (hit_username (Known_user (KnownUserHit ''amy'' None None ''api.example''))) \<and>
   Known_user (KnownUserHit ''amy'' None None ''api.example'')
     \<notin> set (suggestionSet [Known amy]
           [Known_user (KnownUserHit ''amy'' None None ''api.example''),
            Known_user (KnownUserHit ''bob'' None None ''api.example'')]) \<and>
   suggestionSet [Known amy]
           [Known_user (KnownUserHit ''amy'' None None ''api.example''),
            Known_user (KnownUserHit ''bob'' None None ''api.example'')]
     = [Known_user (KnownUserHit ''bob'' None None ''api.example'')]"
proof -
  have m: "Known amy \<in> set [Known amy]" by simp
  have u: "author_username (Known amy)
     = Some (hit_username (Known_user (KnownUserHit ''amy'' None None ''api.example'')))"
    by (simp add: amy_def)
  have ex: "suggestionSet [Known amy]
           [Known_user (KnownUserHit ''amy'' None None ''api.example''),
            Known_user (KnownUserHit ''bob'' None None ''api.example'')]
     = [Known_user (KnownUserHit ''bob'' None None ''api.example'')]"
    by (simp add: suggestionSet_def getAutocompleteItemFilter_def amy_def)
  from suggestionSet_excludes_known_user [OF m u] m u ex show ?thesis by blast
qed

text \<open>
  Claim C9. The filter admits every candidate that is not a known-user hit, whatever its
  username and whatever the list holds. It rejects a known-user hit exactly when some
  entry of the list has the very same username; a username that differs in any
  character, letter case included, is admitted. Resolution compares lower-cased usernames
  instead: a pending token whose username differs from a known entry's only in case ends
  its search at that entry.
\<close>

theorem getAutocompleteItemFilter_case_sensitive:
  shows
   "getAutocompleteItemFilter as (Unknown_user username) \<and>
    (getAutocompleteItemFilter as (Known_user h)
       \<longleftrightarrow> (\<forall>a \<in> set as. author_username a \<noteq> Some (hit_username (Known_user h)))) \<and>
    (u \<noteq> v \<longrightarrow>
       getAutocompleteItemFilter [Known (KnownAuthor n e (Some u))]
         (Known_user (KnownUserHit v hn he ep))) \<and>
    (toLowerCase u = toLowerCase v \<longrightarrow>
       attemptUnknownAuthorSearch (c\<lparr>authors := [Known (KnownAuthor n e (Some u))]\<rparr>)
           (UnknownAuthor v st)
         = updateUnknownAuthor (c\<lparr>authors := [Known (KnownAuthor n e (Some u))]\<rparr>)
             (Known (KnownAuthor n e (Some u))))"
proof -
  have "getAutocompleteItemFilter as (Known_user h)
       \<longleftrightarrow> (\<forall>a \<in> set as. author_username a \<noteq> Some (hit_username (Known_user h)))"
    by (simp add: getAutocompleteItemFilter_def list_ex_iff image_iff) metis
  then show ?thesis
    by (simp add: getAutocompleteItemFilter_def attemptUnknownAuthorSearch_def)
qed

theorem getAutocompleteItemFilter_case_sensitive_witness:
  "''amy'' \<noteq> ''Amy'' \<and> toLowerCase ''amy'' = toLowerCase ''Amy'' \<and>
   getAutocompleteItemFilter [Unknown (UnknownAuthor ''amy'' Searching)] (Unknown_user ''amy'') \<and>
   getAutocompleteItemFilter [Known amy]
     (Known_user (KnownUserHit ''Amy'' None None ''api.example'')) \<and>
   \<not> getAutocompleteItemFilter [Known amy]
     (Known_user (KnownUserHit ''amy'' None None ''api.example'')) \<and>
   exactMatch (attemptUnknownAuthorSearch (mounted [Known amy] [] 0)
     (UnknownAuthor ''Amy'' Searching)) = []"
proof -
  have ne: "''amy'' \<noteq> ''Amy''" by simp
  have lc: "toLowerCase ''amy'' = toLowerCase ''Amy''" by (simp add: toLowerCase_examples)
  note t = getAutocompleteItemFilter_case_sensitive
    [where u = "''amy''" and v = "''Amy''" and n = "''Amy A''" and e = "''amy@x''"
      and c = "mounted [] [] 0" and st = Searching and as = "[Known amy]"
      and h = "KnownUserHit ''amy'' None None ''api.example''" and hn = None and he = None
      and ep = "''api.example''"]
  have f1: "getAutocompleteItemFilter [Unknown (UnknownAuthor ''amy'' Searching)]
      (Unknown_user ''amy'')"
    using getAutocompleteItemFilter_case_sensitive
      [where as = "[Unknown (UnknownAuthor ''amy'' Searching)]" and username = "''amy''"]
    by blast
  have f2: "getAutocompleteItemFilter [Known amy]
      (Known_user (KnownUserHit ''Amy'' None None ''api.example''))"
    using t ne by (simp add: amy_def)
  have f3: "\<not> getAutocompleteItemFilter [Known amy]
      (Known_user (KnownUserHit ''amy'' None None ''api.example''))"
    using t by (simp add: amy_def)
  have f4: "exactMatch (attemptUnknownAuthorSearch (mounted [Known amy] [] 0)
      (UnknownAuthor ''Amy'' Searching)) = []"
    using t lc by (simp add: amy_def mounted_def updateUnknownAuthor_eq)
  show ?thesis
    by (intro conjI) (fact ne lc f1 f2 f3 f4)+
qed

subsection \<open>The focus index\<close>

text \<open>
  On a list that is not empty the keyboard navigation keeps the focus state "none" or an
  index into the list, and so does a removal once the parent has handed back the list it
  was given.
\<close>

lemma focusPreviousAuthor_valid:
  "authors c \<noteq> [] \<Longrightarrow> focusValid c \<Longrightarrow> focusValid (focusPreviousAuthor c)"
  by (auto simp: focusValid_def focusPreviousAuthor_def focusAuthorHandle_def
      split: option.splits)

lemma focusPreviousAuthor_from_none:
  "authors c \<noteq> [] \<Longrightarrow> focusedAuthorIndex c = None
    \<Longrightarrow> focusedAuthorIndex (focusPreviousAuthor c) = Some (int (length (authors c)) - 1)"
  by (simp add: focusPreviousAuthor_def focusAuthorHandle_def)

lemma focusNextAuthor_valid:
  "focusValid c \<Longrightarrow> focusValid (focusNextAuthor c)"
  by (auto simp: focusValid_def focusNextAuthor_def focusAuthorHandle_def
      split: option.splits)

lemma removeAuthor_valid:
  assumes "0 \<le> i" "i < int (length (authors c))"
  shows "focusValid (receiveProps (removeAuthor c i) (last (onAuthorsUpdated (removeAuthor c i))))"
  using assms
  by (auto simp: removeAuthor_in_range focusValid_def receiveProps_def)

text \<open>
  Claim C6. The focus state is meant to be "none" or an index into the list. On a
  freshly mounted component with an empty list (focus "none", caret at position zero),
  the left-arrow key runs \<open>focusPreviousAuthor\<close>, which passes \<open>authors.length - 1 = -1\<close>
  to \<open>focusAuthorHandle\<close>: the focus state becomes \<open>-1\<close>, neither "none" nor an index.
  Backspace in the same situation is stopped by the bounds check of \<open>removeAuthor\<close> and
  changes nothing. The stray \<open>-1\<close> stays when the list later holds an author: the next
  left-arrow finds a focus that is not "none" and not positive and does nothing, where
  from "none" it focuses the last token.
\<close>

theorem focusPreviousAuthor_empty_list_invalid_focus:
  "focusValid (mounted [] [] 0) \<and>
   focusedAuthorIndex (mounted [] [] 0) = None \<and>
   focusedAuthorIndex (onInputKeyDown exampleStealthEmail (mounted [] [] 0) ''ArrowLeft'')
     = Some (- 1) \<and>
   \<not> focusValid (onInputKeyDown exampleStealthEmail (mounted [] [] 0) ''ArrowLeft'') \<and>
   onInputKeyDown exampleStealthEmail (mounted [] [] 0) ''Backspace'' = mounted [] [] 0 \<and>
   focusedAuthorIndex
     (onInputKeyDown exampleStealthEmail
        (receiveProps (onInputKeyDown exampleStealthEmail (mounted [] [] 0) ''ArrowLeft'')
           [Known amy])
        ''ArrowLeft'') = Some (- 1) \<and>
   focusedAuthorIndex
     (onInputKeyDown exampleStealthEmail (receiveProps (mounted [] [] 0) [Known amy])
        ''ArrowLeft'')
     = Some 0"
  by (simp add: mounted_def onInputKeyDown_def focusPreviousAuthor_def focusAuthorHandle_def
      focusValid_def receiveProps_def removeAuthor_def Let_def)

end
